theory Spec2Isabelle
  imports Main "HOL-Library.Sublist"
begin

section \<open>Log entries and the severity filter (LogPanel.ts, AppState.ts)\<close>

text \<open>
  A log entry as the interface \<open>LogEntry\<close> declares it: the level is an arbitrary string,
  not an enumeration. Strings are modelled as lists of 8-bit characters; every string the
  development evaluates is ASCII.
\<close>

record LogEntry =
  level :: string
  message :: string
  timestamp :: string

text \<open>
  The three severities that the specification names, with the names under which the code
  stores them and the ranking of the specification (ERROR most severe).
\<close>

datatype severity = ERROR | WARNING | INFO

fun severity_name :: "severity \<Rightarrow> string" where
  "severity_name ERROR = ''ERROR''"
| "severity_name WARNING = ''WARNING''"
| "severity_name INFO = ''INFO''"

fun severity_rank :: "severity \<Rightarrow> nat" where
  "severity_rank ERROR = 0"
| "severity_rank WARNING = 1"
| "severity_rank INFO = 2"

text \<open>
  \<open>shouldShowLog\<close> looks both levels up in the object literal
  \<open>{ERROR: 0, WARNING: 1, INFO: 2}\<close> with \<open>levelHierarchy[key] ?? 2\<close>. A property read on
  an object literal first consults the object's own properties and then its prototype,
  \<open>Object.prototype\<close>, so the keys below are found although the literal does not list
  them. What is found there is a function (or, for \<open>__proto__\<close>, the prototype object); it
  is neither \<open>null\<close> nor \<open>undefined\<close>, so \<open>??\<close> keeps it. In the comparison \<open><=\<close> such a
  value is converted to a primitive, which is its source text; that text is what the model
  stores.
\<close>

datatype jsval = Num nat | Inherited string

definition nativeFunction :: "string \<Rightarrow> string" where
  "nativeFunction f = ''function '' @ f @ ''() { [native code] }''"

definition objectPrototype :: "(string \<times> string) list" where
  "objectPrototype =
     [(''constructor'', nativeFunction ''Object''),
      (''__defineGetter__'', nativeFunction ''__defineGetter__''),
      (''__defineSetter__'', nativeFunction ''__defineSetter__''),
      (''hasOwnProperty'', nativeFunction ''hasOwnProperty''),
      (''__lookupGetter__'', nativeFunction ''__lookupGetter__''),
      (''__lookupSetter__'', nativeFunction ''__lookupSetter__''),
      (''isPrototypeOf'', nativeFunction ''isPrototypeOf''),
      (''propertyIsEnumerable'', nativeFunction ''propertyIsEnumerable''),
      (''toString'', nativeFunction ''toString''),
      (''valueOf'', nativeFunction ''valueOf''),
      (''toLocaleString'', nativeFunction ''toLocaleString''),
      (''__proto__'', ''[object Object]'')]"

definition ownLevels :: "(string \<times> nat) list" where
  "ownLevels = [(''ERROR'', 0), (''WARNING'', 1), (''INFO'', 2)]"

definition levelHierarchy :: "string \<Rightarrow> jsval option" where
  "levelHierarchy key =
     (case map_of ownLevels key of
        Some n \<Rightarrow> Some (Num n)
      | None \<Rightarrow> map_option Inherited (map_of objectPrototype key))"

text \<open>The operator \<open>??\<close>: the right operand replaces only a missing value.\<close>

definition nullish :: "'a option \<Rightarrow> 'a \<Rightarrow> 'a" where
  "nullish v d = (case v of None \<Rightarrow> d | Some x \<Rightarrow> x)"

text \<open>
  The comparison \<open>a <= b\<close> of JavaScript on these values: two numbers compare as numbers;
  two strings compare by code units, \<open>a <= b\<close> being \<open>!(b < a)\<close>; a number against a
  string that is no numeral is a comparison with NaN, which is false.
\<close>

fun str_lt :: "string \<Rightarrow> string \<Rightarrow> bool" where
  "str_lt [] [] = False"
| "str_lt [] (y # ys) = True"
| "str_lt (x # xs) [] = False"
| "str_lt (x # xs) (y # ys) =
     ((of_char x :: nat) < of_char y \<or> (x = y \<and> str_lt xs ys))"

fun js_le :: "jsval \<Rightarrow> jsval \<Rightarrow> bool" where
  "js_le (Num a) (Num b) = (a \<le> b)"
| "js_le (Inherited s) (Inherited t) = (\<not> str_lt t s)"
| "js_le (Num a) (Inherited t) = False"
| "js_le (Inherited s) (Num b) = False"

definition shouldShowLog :: "LogEntry \<Rightarrow> string \<Rightarrow> bool" where
  "shouldShowLog log minLevel =
     (let minLevelIndex = nullish (levelHierarchy minLevel) (Num 2);
          logLevelIndex = nullish (levelHierarchy (level log)) (Num 2)
      in js_le logLevelIndex minLevelIndex)"

definition filterLogsByLevel :: "LogEntry list \<Rightarrow> string \<Rightarrow> LogEntry list" where
  "filterLogsByLevel logs minLevel = filter (\<lambda>log. shouldShowLog log minLevel) logs"

section \<open>The rendered log panel\<close>

text \<open>
  The children of the element \<open>#logs-panel\<close>. The panel only ever holds the placeholder
  \<open><div class="log-empty">No logs yet</div>\<close> and the elements that \<open>createLogElement\<close>
  builds: a \<open>div\<close> with a class attribute and three \<open>span\<close> children of the fixed classes
  \<open>log-timestamp\<close>, \<open>log-level\<close> and \<open>log-message\<close>, of which the model keeps the texts.
  Scrolling and the synchronisation of the level selector are not modelled.
\<close>

datatype node = EmptyMsg | LogElement string string string string

fun nodeClass :: "node \<Rightarrow> string" where
  "nodeClass EmptyMsg = ''log-empty''"
| "nodeClass (LogElement cls ts lv msg) = cls"

fun nodeMessage :: "node \<Rightarrow> string" where
  "nodeMessage EmptyMsg = ''No logs yet''"
| "nodeMessage (LogElement cls ts lv msg) = msg"

text \<open>\<open>String.prototype.toLowerCase\<close> on ASCII text.\<close>

definition toLowerCase :: "string \<Rightarrow> string" where
  "toLowerCase =
     map (\<lambda>c. nullish (map_of (zip ''ABCDEFGHIJKLMNOPQRSTUVWXYZ''
                                    ''abcdefghijklmnopqrstuvwxyz'') c) c)"

text \<open>
  The class list of an element is its class attribute split at ASCII whitespace; the
  selector \<open>.log-empty\<close> matches an element whose class list contains that token.
\<close>

definition is_ws :: "char \<Rightarrow> bool" where
  "is_ws c = (c \<in> set [CHR '' '', CHR 0x09, CHR 0x0A, CHR 0x0C, CHR 0x0D])"

fun tokens :: "string \<Rightarrow> string \<Rightarrow> string list" where
  "tokens cur [] = (if cur = [] then [] else [cur])"
| "tokens cur (c # cs) =
     (if is_ws c then (if cur = [] then [] else [cur]) @ tokens [] cs
      else tokens (cur @ [c]) cs)"

definition classList :: "string \<Rightarrow> string list" where
  "classList cls = tokens [] cls"

definition matchesLogEmpty :: "node \<Rightarrow> bool" where
  "matchesLogEmpty n = (''log-empty'' \<in> set (classList (nodeClass n)))"

text \<open>
  \<open>container.querySelector(".log-empty")\<close> followed by \<open>remove()\<close> on what it found: the
  first matching element in document order leaves the panel. The \<open>span\<close> children of a log
  element never match, so only the panel's children are candidates.
\<close>

fun removeEmptyMsg :: "node list \<Rightarrow> node list" where
  "removeEmptyMsg [] = []"
| "removeEmptyMsg (n # ns) = (if matchesLogEmpty n then ns else n # removeEmptyMsg ns)"

text \<open>
  \<open>createLogElement\<close>; \<open>fmt\<close> stands for \<open>new Date(t).toLocaleTimeString()\<close>, which depends
  on the locale and time zone of the host.
\<close>

definition createLogElement :: "(string \<Rightarrow> string) \<Rightarrow> LogEntry \<Rightarrow> node" where
  "createLogElement fmt log =
     LogElement (''log-entry log-'' @ toLowerCase (level log))
                (fmt (timestamp log))
                (''['' @ level log @ '']'')
                (message log)"

record LogPanel =
  lastRenderedCount :: nat
  lastLogLevel :: string

text \<open>The field initialisers of the class and the panel that \<open>render()\<close> emits.\<close>

definition newLogPanel :: LogPanel where
  "newLogPanel = \<lparr>lastRenderedCount = 0, lastLogLevel = ''''\<rparr>"

definition initialPanel :: "node list" where
  "initialPanel = [EmptyMsg]"

definition fullRender ::
  "(string \<Rightarrow> string) \<Rightarrow> LogEntry list \<Rightarrow> string \<Rightarrow> LogPanel \<times> node list \<Rightarrow> LogPanel \<times> node list" where
  "fullRender fmt logs minLevel st =
     (let (v, container) = st;
          container = [];
          v = v\<lparr>lastRenderedCount := 0\<rparr>;
          filteredLogs = filterLogsByLevel logs minLevel
      in if length filteredLogs = 0
         then (v\<lparr>lastRenderedCount := length logs\<rparr>, [EmptyMsg])
         else (v\<lparr>lastRenderedCount := length logs\<rparr>,
               container @ map (createLogElement fmt) filteredLogs))"

text \<open>
  The \<open>forEach\<close> of \<open>appendLogs\<close>, carrying the document fragment and the flag
  \<open>hasNewVisibleLogs\<close>.
\<close>

fun appendEach ::
  "(string \<Rightarrow> string) \<Rightarrow> string \<Rightarrow> LogEntry list \<Rightarrow> node list \<times> bool \<Rightarrow> node list \<times> bool" where
  "appendEach fmt minLevel [] acc = acc"
| "appendEach fmt minLevel (log # rest) (fragment, hasNewVisibleLogs) =
     (if shouldShowLog log minLevel
      then appendEach fmt minLevel rest (fragment @ [createLogElement fmt log], True)
      else appendEach fmt minLevel rest (fragment, hasNewVisibleLogs))"

definition appendLogs ::
  "(string \<Rightarrow> string) \<Rightarrow> LogEntry list \<Rightarrow> string \<Rightarrow> LogPanel \<times> node list \<Rightarrow> LogPanel \<times> node list" where
  "appendLogs fmt logs minLevel st =
     (let (v, container) = st;
          container = removeEmptyMsg container;
          newLogs = drop (lastRenderedCount v) logs;
          (fragment, hasNewVisibleLogs) = appendEach fmt minLevel newLogs ([], False);
          container = (if hasNewVisibleLogs then container @ fragment else container)
      in (v\<lparr>lastRenderedCount := length logs\<rparr>, container))"

text \<open>
  \<open>update\<close>. The second component of the state is what
  \<open>document.getElementById("logs-panel")\<close> finds: \<open>None\<close> when the document has no such
  element, in which case \<open>update\<close> returns before it touches anything.
\<close>

definition update ::
  "(string \<Rightarrow> string) \<Rightarrow> LogEntry list \<Rightarrow> string \<Rightarrow> LogPanel \<times> node list option
     \<Rightarrow> LogPanel \<times> node list option" where
  "update fmt logs selectedLogLevel st =
     (case snd st of
        None \<Rightarrow> st
      | Some logsPanel \<Rightarrow>
          (let v = fst st;
               needsFullRender =
                 (selectedLogLevel \<noteq> lastLogLevel v \<or> length logs < lastRenderedCount v);
               v = v\<lparr>lastLogLevel := selectedLogLevel\<rparr>
           in if needsFullRender
              then map_prod id Some (fullRender fmt logs selectedLogLevel (v, logsPanel))
              else if length logs > lastRenderedCount v
              then map_prod id Some (appendLogs fmt logs selectedLogLevel (v, logsPanel))
              else (v, Some logsPanel)))"

text \<open>The log elements of a panel: everything but the placeholder.\<close>

definition renderedEntries :: "node list \<Rightarrow> node list" where
  "renderedEntries c = filter (\<lambda>n. n \<noteq> EmptyMsg) c"

section \<open>The observable store (AppState.ts)\<close>

record ReportModel =
  file_name :: string
  sha512 :: "string option"
  processed :: string
  skip_reason :: "string option"
  relative_path :: string
  file_type :: string
  file_size_bytes :: nat
  file_size_human :: string
  last_modified :: string
  created_time :: string

record ProcessingResult =
  entries :: "ReportModel list"
  staging_path :: string
  llm_output_path :: string
  report_path :: string

record AppFields =
  selectedPath :: "string option"
  isProcessing :: bool
  logs :: "LogEntry list"
  processingResult :: "ProcessingResult option"
  selectedLogLevel :: string
  progressCurrent :: int
  progressTotal :: int
  currentTaskCategory :: string
  statusMessage :: string

text \<open>
  A listener is a closure; the store compares listeners by reference (\<open>l !== listener\<close>),
  so the model names each closure by a number. What a closure does to the subscription list
  when it is called is a list of actions, looked up in the environment. Callbacks that call
  a mutation of the store from inside a notification are outside this model.
\<close>

type_synonym listener = nat

datatype action = Subscribe listener | Unsubscribe listener

text \<open>
  The world outside the store: the bodies of the closures, the wall clock (\<open>clock k\<close> is
  what the \<open>k\<close>-th \<open>new Date().toISOString()\<close> returns) and the two backend commands,
  which either resolve (\<open>Inr\<close>) or reject with an error rendered as text (\<open>Inl\<close>).
\<close>

record env =
  callback :: "listener \<Rightarrow> action list"
  clock :: "nat \<Rightarrow> string"
  handle_user_input :: "string \<Rightarrow> string + string"
  start_processing :: "string option \<Rightarrow> string + ProcessingResult"

text \<open>
  The store. \<open>this.listeners\<close> is a reference to an array: \<open>listeners\<close> is the address it
  holds, \<open>arrays\<close> the contents of every array allocated so far and \<open>fresh\<close> the next unused
  address. Three fields record what happened and are never read by the code: \<open>tick\<close> counts
  the readings of the clock, \<open>notifications\<close> lists the fields as they stood at each call of
  \<open>notify\<close>, and \<open>invoked\<close> lists the listeners in the order they were called.
\<close>

record AppState = AppFields +
  listeners :: nat
  arrays :: "nat \<Rightarrow> listener list"
  fresh :: nat
  tick :: nat
  notifications :: "AppFields list"
  invoked :: "listener list"

definition initialFields :: AppFields where
  "initialFields =
     \<lparr>selectedPath = None, isProcessing = False, logs = [], processingResult = None,
      selectedLogLevel = ''WARNING'', progressCurrent = 0, progressTotal = 0,
      currentTaskCategory = '''', statusMessage = ''''\<rparr>"

definition newAppState :: AppState where
  "newAppState =
     \<lparr>selectedPath = None, isProcessing = False, logs = [], processingResult = None,
      selectedLogLevel = ''WARNING'', progressCurrent = 0, progressTotal = 0,
      currentTaskCategory = '''', statusMessage = '''',
      listeners = 0, arrays = (\<lambda>a. []), fresh = 1, tick = 0, notifications = [],
      invoked = []\<rparr>"

text \<open>
  \<open>subscribe\<close> pushes onto the array in place. The capability it returns, here
  \<open>unsubscribe\<close>, assigns to \<open>this.listeners\<close> the new array that \<open>filter\<close> builds and
  leaves the old array as it is.
\<close>

definition subscribe :: "listener \<Rightarrow> AppState \<Rightarrow> AppState" where
  "subscribe l s = s\<lparr>arrays := (arrays s)(listeners s := arrays s (listeners s) @ [l])\<rparr>"

definition unsubscribe :: "listener \<Rightarrow> AppState \<Rightarrow> AppState" where
  "unsubscribe l s =
     s\<lparr>arrays := (arrays s)(fresh s := filter (\<lambda>x. x \<noteq> l) (arrays s (listeners s))),
       listeners := fresh s,
       fresh := Suc (fresh s)\<rparr>"

fun perform :: "action \<Rightarrow> AppState \<Rightarrow> AppState" where
  "perform (Subscribe l) s = subscribe l s"
| "perform (Unsubscribe l) s = unsubscribe l s"

definition invoke :: "env \<Rightarrow> listener \<Rightarrow> AppState \<Rightarrow> AppState" where
  "invoke e l s = fold perform (callback e l) (s\<lparr>invoked := invoked s @ [l]\<rparr>)"

text \<open>
  \<open>Array.prototype.forEach\<close> on the array at address \<open>a\<close>: the number of iterations is
  the length read before the first call; each iteration reads the element at its index from
  the array as it is then, and skips an index the array no longer has.
\<close>

fun forEach :: "env \<Rightarrow> nat \<Rightarrow> nat \<Rightarrow> nat \<Rightarrow> AppState \<Rightarrow> AppState" where
  "forEach e a k 0 s = s"
| "forEach e a k (Suc n) s =
     forEach e a (Suc k) n
       (if k < length (arrays s a) then invoke e (arrays s a ! k) s else s)"

definition notify :: "env \<Rightarrow> AppState \<Rightarrow> AppState" where
  "notify e s =
     forEach e (listeners s) 0 (length (arrays s (listeners s)))
       (s\<lparr>notifications := notifications s @ [AppFields.truncate s]\<rparr>)"

definition setSelectedPath :: "env \<Rightarrow> string option \<Rightarrow> AppState \<Rightarrow> AppState" where
  "setSelectedPath e p s = notify e (s\<lparr>selectedPath := p\<rparr>)"

definition setProcessing :: "env \<Rightarrow> bool \<Rightarrow> AppState \<Rightarrow> AppState" where
  "setProcessing e b s = notify e (s\<lparr>isProcessing := b\<rparr>)"

definition setProcessingResult :: "env \<Rightarrow> ProcessingResult option \<Rightarrow> AppState \<Rightarrow> AppState" where
  "setProcessingResult e r s = notify e (s\<lparr>processingResult := r\<rparr>)"

definition setSelectedLogLevel :: "env \<Rightarrow> string \<Rightarrow> AppState \<Rightarrow> AppState" where
  "setSelectedLogLevel e lv s = notify e (s\<lparr>selectedLogLevel := lv\<rparr>)"

definition updateProgress :: "env \<Rightarrow> int \<Rightarrow> int \<Rightarrow> string \<Rightarrow> AppState \<Rightarrow> AppState" where
  "updateProgress e cur tot cat s =
     notify e (s\<lparr>progressCurrent := cur, progressTotal := tot, currentTaskCategory := cat\<rparr>)"

definition setStatusMessage :: "env \<Rightarrow> string \<Rightarrow> AppState \<Rightarrow> AppState" where
  "setStatusMessage e msg s = notify e (s\<lparr>statusMessage := msg\<rparr>)"

definition addLog :: "env \<Rightarrow> string \<Rightarrow> string \<Rightarrow> AppState \<Rightarrow> AppState" where
  "addLog e lv msg s =
     (let entry = \<lparr>level = lv, message = msg, timestamp = clock e (tick s)\<rparr>
      in notify e (s\<lparr>logs := logs s @ [entry], tick := Suc (tick s)\<rparr>))"

definition clearLogs :: "env \<Rightarrow> AppState \<Rightarrow> AppState" where
  "clearLogs e s = notify e (s\<lparr>logs := []\<rparr>)"

definition reset :: "env \<Rightarrow> AppState \<Rightarrow> AppState" where
  "reset e s =
     notify e (s\<lparr>selectedPath := None, isProcessing := False, logs := [],
                 processingResult := None, selectedLogLevel := ''WARNING'',
                 progressCurrent := 0, progressTotal := 0, currentTaskCategory := '''',
                 statusMessage := ''''\<rparr>)"

text \<open>The nine mutation operations as data, to quantify over them and to list events.\<close>

datatype mutation =
    SetSelectedPath "string option"
  | SetProcessing bool
  | SetProcessingResult "ProcessingResult option"
  | SetSelectedLogLevel string
  | UpdateProgress int int string
  | SetStatusMessage string
  | AddLog string string
  | ClearLogs
  | Reset

fun apply_mutation :: "env \<Rightarrow> mutation \<Rightarrow> AppState \<Rightarrow> AppState" where
  "apply_mutation e (SetSelectedPath p) s = setSelectedPath e p s"
| "apply_mutation e (SetProcessing b) s = setProcessing e b s"
| "apply_mutation e (SetProcessingResult r) s = setProcessingResult e r s"
| "apply_mutation e (SetSelectedLogLevel lv) s = setSelectedLogLevel e lv s"
| "apply_mutation e (UpdateProgress cur tot cat) s = updateProgress e cur tot cat s"
| "apply_mutation e (SetStatusMessage msg) s = setStatusMessage e msg s"
| "apply_mutation e (AddLog lv msg) s = addLog e lv msg s"
| "apply_mutation e ClearLogs s = clearLogs e s"
| "apply_mutation e Reset s = reset e s"

section \<open>The shell (EPTAppShell.ts)\<close>

text \<open>
  The constructor creates the store and subscribes one callback, which redraws the views
  and changes no subscription.
\<close>

definition shellListener :: listener where
  "shellListener = 0"

definition newShell :: AppState where
  "newShell = subscribe shellListener newAppState"

text \<open>Truthiness of a value of type \<open>string | null\<close>: \<open>null\<close> and the empty string are falsy.\<close>

definition truthy :: "string option \<Rightarrow> bool" where
  "truthy v = (case v of None \<Rightarrow> False | Some x \<Rightarrow> x \<noteq> [])"

text \<open>A count interpolated into a template literal: its decimal numeral.\<close>

fun show_nat :: "nat \<Rightarrow> string" where
  "show_nat n =
     (if n < 10 then [''0123456789'' ! n]
      else show_nat (n div 10) @ [''0123456789'' ! (n mod 10)])"

declare show_nat.simps [simp del]

definition handleUserInput :: "env \<Rightarrow> string \<Rightarrow> AppState \<Rightarrow> AppState" where
  "handleUserInput e p s =
     (case handle_user_input e p of
        Inr normalizedPath \<Rightarrow>
          addLog e ''INFO'' (''Selected: '' @ normalizedPath)
            (setSelectedPath e (Some normalizedPath) s)
      | Inl err \<Rightarrow> addLog e ''ERROR'' (''Invalid path: '' @ err) s)"

text \<open>
  \<open>startProcessing\<close>. While the handler awaits the backend, the store receives whatever
  events arrive: \<open>during\<close> lists them. The \<open>try\<close> block has one statement that can throw,
  the backend call; its rejection is the \<open>Inl\<close> branch, and the \<open>finally\<close> block follows
  both branches.
\<close>

definition startProcessing :: "env \<Rightarrow> mutation list \<Rightarrow> AppState \<Rightarrow> AppState" where
  "startProcessing e during s =
     (if \<not> truthy (selectedPath s) \<or> isProcessing s then s
      else
        let s = setProcessing e True s;
            s = setProcessingResult e None s;
            s = updateProgress e 0 0 '''' s;
            s = addLog e ''INFO'' ''Starting processing...'' s;
            outcome = start_processing e (selectedPath s);
            s = fold (apply_mutation e) during s;
            s = (case outcome of
                   Inr result \<Rightarrow>
                     let s = setProcessingResult e (Some result) s;
                         processedCount =
                           length (filter (\<lambda>x. processed x = ''Yes'') (entries result));
                         s = addLog e ''INFO''
                               (''Processing complete. Found '' @ show_nat (length (entries result))
                                  @ '' files, '' @ show_nat processedCount @ '' processed.'') s;
                         statusMsg =
                           ''Processed '' @ show_nat processedCount @ '' of ''
                             @ show_nat (length (entries result)) @ '' files.''
                             @ [CHR 0x0A, CHR 0x0A]
                             @ ''<strong>Staging Folder:</strong> '' @ staging_path result
                             @ [CHR 0x0A]
                             @ ''<strong>LLM Output Folder:</strong> '' @ llm_output_path result
                             @ [CHR 0x0A]
                             @ ''<strong>Report File:</strong> '' @ report_path result
                     in setStatusMessage e statusMsg s
                 | Inl err \<Rightarrow>
                     setStatusMessage e (''Error: '' @ err)
                       (addLog e ''ERROR'' (''Processing failed: '' @ err) s))
        in setProcessing e False s)"

text \<open>
  What a browser drop event carries: \<open>dataTransfer\<close> may be missing; a file may expose the
  non-standard property \<open>path\<close>.
\<close>

record DroppedFile =
  path :: "string option"
  webkitRelativePath :: string
  name :: string

record DropItem =
  kind :: string
  getAsFile :: "DroppedFile option"

record DataTransfer =
  files :: "DroppedFile list"
  items :: "DropItem list"

text \<open>The loop over \<open>items\<close>: the path of the first file item whose file has a truthy path.\<close>

fun firstItemPath :: "DropItem list \<Rightarrow> string option" where
  "firstItemPath [] = None"
| "firstItemPath (item # rest) =
     (if kind item = ''file''
      then (case getAsFile item of
              Some file \<Rightarrow> (if truthy (path file) then path file else firstItemPath rest)
            | None \<Rightarrow> firstItemPath rest)
      else firstItemPath rest)"

definition itemsFallback :: "env \<Rightarrow> DataTransfer option \<Rightarrow> AppState \<Rightarrow> AppState" where
  "itemsFallback e dataTransfer s =
     (case (case dataTransfer of None \<Rightarrow> None | Some dt \<Rightarrow> firstItemPath (items dt)) of
        Some p \<Rightarrow> handleUserInput e p (addLog e ''INFO'' (''Processing dropped item: '' @ p) s)
      | None \<Rightarrow>
          addLog e ''ERROR'' ''No files found in drop event or could not extract path'' s)"

text \<open>
  The \<open>drop\<close> listener of the drop zone. Nothing in its \<open>try\<close> block throws on such an
  event (\<open>handleUserInput\<close> catches the rejection of the backend itself), so the \<open>catch\<close>
  block has no branch here.
\<close>

definition dropHandler :: "env \<Rightarrow> DataTransfer option \<Rightarrow> AppState \<Rightarrow> AppState" where
  "dropHandler e dataTransfer s =
     (case (case dataTransfer of None \<Rightarrow> [] | Some dt \<Rightarrow> files dt) of
        [] \<Rightarrow> itemsFallback e dataTransfer s
      | file # others \<Rightarrow>
          (let (p, s) =
                 (if truthy (path file) then (path file, s)
                  else if webkitRelativePath file \<noteq> [] then (Some (webkitRelativePath file), s)
                  else if name file \<noteq> []
                  then (None,
                        addLog e ''WARN''
                          (''File dropped but no path found. File name: '' @ name file
                             @ ''. This may not work for folders.'') s)
                  else (None, s))
           in case p of
                Some q \<Rightarrow>
                  (if q \<noteq> []
                   then handleUserInput e q
                          (addLog e ''INFO'' (''Processing dropped item: '' @ q) s)
                   else itemsFallback e dataTransfer s)
              | None \<Rightarrow> itemsFallback e dataTransfer s))"

section \<open>Concrete inputs\<close>

text \<open>
  An environment whose callbacks change no subscription and whose job command rejects; the
  result of an earlier job; the shell once a path is selected, and once a job has finished;
  a store with two listeners, the first of which unsubscribes both; and a drop that carries
  one file item without a path.
\<close>

definition failingEnv :: env where
  "failingEnv =
     \<lparr>callback = (\<lambda>l. []), clock = (\<lambda>k. ''t''), handle_user_input = Inr,
      start_processing = (\<lambda>p. Inl ''boom'')\<rparr>"



definition selectedShell :: AppState where
  "selectedShell = newShell\<lparr>selectedPath := Some ''/x''\<rparr>"

definition unsubscribingEnv :: env where
  "unsubscribingEnv =
     \<lparr>callback = (\<lambda>l. if l = 1 then [Unsubscribe 1, Unsubscribe 2] else []),
      clock = (\<lambda>k. ''t''), handle_user_input = Inr,
      start_processing = (\<lambda>p. Inl ''boom'')\<rparr>"

definition twoListeners :: AppState where
  "twoListeners = subscribe 2 (subscribe 1 newAppState)"

definition pathlessDrop :: DataTransfer where
  "pathlessDrop =
     \<lparr>files = [],
      items = [\<lparr>kind = ''file'',
                getAsFile = Some \<lparr>path = None, webkitRelativePath = '''', name = ''a.txt''\<rparr>\<rparr>]\<rparr>"

section \<open>Properties of the log panel\<close>

lemma appendEach_closed:
  "appendEach fmt T xs (frag, h) =
     (frag @ map (createLogElement fmt) (filterLogsByLevel xs T),
      h \<or> filterLogsByLevel xs T \<noteq> [])"
  by (induction xs arbitrary: frag h) (simp_all add: filterLogsByLevel_def)

lemma matchesLogEmpty_EmptyMsg: "matchesLogEmpty EmptyMsg"
  by (simp add: matchesLogEmpty_def classList_def is_ws_def)

lemma removeEmptyMsg_remove1:
  "(\<forall>n\<in>set c. matchesLogEmpty n \<longrightarrow> n = EmptyMsg) \<Longrightarrow> removeEmptyMsg c = remove1 EmptyMsg c"
  by (induction c) (auto simp: matchesLogEmpty_EmptyMsg)

lemma fullRender_closed:
  "fullRender fmt lgs T (v, c) =
     (v\<lparr>lastRenderedCount := length lgs\<rparr>,
      if filterLogsByLevel lgs T = [] then [EmptyMsg]
      else map (createLogElement fmt) (filterLogsByLevel lgs T))"
  by (simp add: fullRender_def Let_def)

lemma appendLogs_closed:
  "appendLogs fmt lgs T (v, c) =
     (v\<lparr>lastRenderedCount := length lgs\<rparr>,
      removeEmptyMsg c @ map (createLogElement fmt) (filterLogsByLevel (drop (lastRenderedCount v) lgs) T))"
  by (simp add: appendLogs_def Let_def appendEach_closed)

lemma update_closed:
  "update fmt lgs T (v, Some c) =
     (if T \<noteq> lastLogLevel v \<or> length lgs < lastRenderedCount v
      then (\<lparr>lastRenderedCount = length lgs, lastLogLevel = T\<rparr>,
            Some (if filterLogsByLevel lgs T = [] then [EmptyMsg]
                  else map (createLogElement fmt) (filterLogsByLevel lgs T)))
      else if lastRenderedCount v < length lgs
      then (\<lparr>lastRenderedCount = length lgs, lastLogLevel = T\<rparr>,
            Some (removeEmptyMsg c @
                  map (createLogElement fmt) (filterLogsByLevel (drop (lastRenderedCount v) lgs) T)))
      else (v, Some c))"
  by (simp add: update_def Let_def fullRender_closed appendLogs_closed)

lemma renderedEntries_remove1: "renderedEntries (remove1 EmptyMsg c) = renderedEntries c"
  by (induction c) (auto simp: renderedEntries_def)

lemma renderedEntries_created:
  "renderedEntries (map (createLogElement fmt) xs) = map (createLogElement fmt) xs"
  by (induction xs) (auto simp: renderedEntries_def createLogElement_def)

lemma severity_filter:
  "shouldShowLog \<lparr>level = severity_name s, message = m, timestamp = t\<rparr> (severity_name T)
     \<longleftrightarrow> severity_rank s \<le> severity_rank T"
  by (cases s; cases T) (simp_all add: shouldShowLog_def levelHierarchy_def ownLevels_def nullish_def)

lemma update_Some_level:
  "\<exists>v1 c1. update fmt lgs T (v, Some c) = (v1, Some c1) \<and> lastLogLevel v1 = T"
  by (cases "T \<noteq> lastLogLevel v \<or> length lgs < lastRenderedCount v";
      cases "lastRenderedCount v < length lgs") (simp_all add: update_closed)

lemma switch_back_general:
  assumes "T1 \<noteq> T2"
  shows "update fmt lgs T1 (update fmt lgs T2 (update fmt lgs T1 (v, Some c))) =
     (\<lparr>lastRenderedCount = length lgs, lastLogLevel = T1\<rparr>,
      Some (if filterLogsByLevel lgs T1 = [] then [EmptyMsg]
            else map (createLogElement fmt) (filterLogsByLevel lgs T1)))"
proof -
  obtain v1 c1 where s1: "update fmt lgs T1 (v, Some c) = (v1, Some c1)" and l1: "lastLogLevel v1 = T1"
    using update_Some_level by blast
  obtain v2 c2 where s2: "update fmt lgs T2 (v1, Some c1) = (v2, Some c2)" and l2: "lastLogLevel v2 = T2"
    using update_Some_level by blast
  have "update fmt lgs T1 (update fmt lgs T2 (update fmt lgs T1 (v, Some c))) =
        update fmt lgs T1 (v2, Some c2)"
    by (simp only: s1 s2)
  also have "\<dots> = (\<lparr>lastRenderedCount = length lgs, lastLogLevel = T1\<rparr>,
      Some (if filterLogsByLevel lgs T1 = [] then [EmptyMsg]
            else map (createLogElement fmt) (filterLogsByLevel lgs T1)))"
    using assms l2 by (simp add: update_closed)
  finally show ?thesis .
qed

lemma unknown_level:
  assumes "lv \<notin> set (map fst ownLevels)" "lv \<notin> set (map fst objectPrototype)"
  shows "levelHierarchy lv = None"
  using assms by (simp add: levelHierarchy_def ownLevels_def objectPrototype_def)

lemma unlisted_level:
  assumes "level lg \<notin> {''ERROR'', ''WARNING'', ''INFO''}"
      and "level lg \<notin> fst ` set objectPrototype"
  shows "shouldShowLog lg (severity_name T) \<longleftrightarrow> T = INFO"
proof -
  have "levelHierarchy (level lg) = None"
    using assms by (intro unknown_level) (simp_all add: ownLevels_def)
  then show ?thesis
    by (cases T) (simp_all add: shouldShowLog_def nullish_def levelHierarchy_def ownLevels_def)
qed

text \<open>
  Claim C1, as the code has it. When the document has no element \<open>#logs-panel\<close>, \<open>update\<close>
  changes nothing, not even \<open>lastLogLevel\<close>. When it has one: if the threshold differs from
  \<open>lastLogLevel\<close> or the log is shorter than \<open>lastRenderedCount\<close>, the panel is replaced by
  the rendering of the whole filtered log (the placeholder when nothing is admitted) and
  \<open>lastRenderedCount\<close> becomes the raw length; otherwise, if the log is longer than
  \<open>lastRenderedCount\<close>, the admitted entries of the slice beyond it are appended and the
  count becomes the raw length; otherwise nothing changes. As long as no element of the panel
  but the placeholder carries the class \<open>log-empty\<close>, appending removes the placeholder only
  and leaves the log elements already in the panel as they are.
\<close>

theorem update_contract:
  assumes "\<forall>n\<in>set c. matchesLogEmpty n \<longrightarrow> n = EmptyMsg"
  shows "update fmt lgs T (v, None) = (v, None) \<and>
     update fmt lgs T (v, Some c) =
       (if T \<noteq> lastLogLevel v \<or> length lgs < lastRenderedCount v
        then (\<lparr>lastRenderedCount = length lgs, lastLogLevel = T\<rparr>,
              Some (if filterLogsByLevel lgs T = [] then [EmptyMsg]
                    else map (createLogElement fmt) (filterLogsByLevel lgs T)))
        else if lastRenderedCount v < length lgs
        then (\<lparr>lastRenderedCount = length lgs, lastLogLevel = T\<rparr>,
              Some (remove1 EmptyMsg c @
                    map (createLogElement fmt)
                      (filterLogsByLevel (drop (lastRenderedCount v) lgs) T)))
        else (v, Some c)) \<and>
     (T = lastLogLevel v \<and> lastRenderedCount v \<le> length lgs \<longrightarrow>
        map_option renderedEntries (snd (update fmt lgs T (v, Some c))) =
          Some (renderedEntries c @
                map (createLogElement fmt)
                  (filterLogsByLevel (drop (lastRenderedCount v) lgs) T)))"
proof (intro conjI impI)
  show "update fmt lgs T (v, None) = (v, None)"
    by (simp add: update_def)
next
  show "update fmt lgs T (v, Some c) =
       (if T \<noteq> lastLogLevel v \<or> length lgs < lastRenderedCount v
        then (\<lparr>lastRenderedCount = length lgs, lastLogLevel = T\<rparr>,
              Some (if filterLogsByLevel lgs T = [] then [EmptyMsg]
                    else map (createLogElement fmt) (filterLogsByLevel lgs T)))
        else if lastRenderedCount v < length lgs
        then (\<lparr>lastRenderedCount = length lgs, lastLogLevel = T\<rparr>,
              Some (remove1 EmptyMsg c @
                    map (createLogElement fmt)
                      (filterLogsByLevel (drop (lastRenderedCount v) lgs) T)))
        else (v, Some c))"
    using assms by (simp add: update_closed removeEmptyMsg_remove1)
next
  assume h: "T = lastLogLevel v \<and> lastRenderedCount v \<le> length lgs"
  show "map_option renderedEntries (snd (update fmt lgs T (v, Some c))) =
          Some (renderedEntries c @
                map (createLogElement fmt)
                  (filterLogsByLevel (drop (lastRenderedCount v) lgs) T))"
  proof (cases "lastRenderedCount v < length lgs")
    case True
    have "renderedEntries (remove1 EmptyMsg c @ map (createLogElement fmt)
              (filterLogsByLevel (drop (lastRenderedCount v) lgs) T)) =
          renderedEntries c @ map (createLogElement fmt)
              (filterLogsByLevel (drop (lastRenderedCount v) lgs) T)"
      using renderedEntries_remove1 [of c] renderedEntries_created
      by (simp add: renderedEntries_def)
    then show ?thesis
      using h True assms by (simp add: update_closed removeEmptyMsg_remove1)
  next
    case False
    then show ?thesis
      using h by (simp add: update_closed filterLogsByLevel_def)
  qed
qed

theorem update_contract_witness:
  "update (\<lambda>t. t) [\<lparr>level = ''INFO'', message = ''a'', timestamp = ''t0''\<rparr>] ''INFO''
     (\<lparr>lastRenderedCount = 0, lastLogLevel = ''INFO''\<rparr>, Some [EmptyMsg]) =
   (\<lparr>lastRenderedCount = 1, lastLogLevel = ''INFO''\<rparr>,
    Some [LogElement ''log-entry log-info'' ''t0'' ''[INFO]'' ''a''])"
proof -
  have h: "\<forall>n\<in>set [EmptyMsg]. matchesLogEmpty n \<longrightarrow> n = EmptyMsg" by simp
  show ?thesis
    using update_contract [OF h, of "\<lambda>t. t" "[\<lparr>level = ''INFO'', message = ''a'', timestamp = ''t0''\<rparr>]"
        "''INFO''" "\<lparr>lastRenderedCount = 0, lastLogLevel = ''INFO''\<rparr>"]
    by (simp add: filterLogsByLevel_def shouldShowLog_def levelHierarchy_def ownLevels_def
          nullish_def createLogElement_def toLowerCase_def)
qed

text \<open>
  Claim C1 as stated fails twice. Without the panel element a changed threshold causes no
  full render. And a rendered entry whose level is \<open>EMPTY\<close> has the class \<open>log-empty\<close>, so
  the next append removes it from the panel.
\<close>

theorem update_contract_counterexample:
  "update (\<lambda>t. t) [\<lparr>level = ''ERROR'', message = ''a'', timestamp = ''t0''\<rparr>] ''INFO''
     (\<lparr>lastRenderedCount = 0, lastLogLevel = ''WARNING''\<rparr>, None) =
   (\<lparr>lastRenderedCount = 0, lastLogLevel = ''WARNING''\<rparr>, None) \<and>
   update (\<lambda>t. t)
     [\<lparr>level = ''EMPTY'', message = ''a'', timestamp = ''t0''\<rparr>,
      \<lparr>level = ''INFO'', message = ''b'', timestamp = ''t1''\<rparr>] ''INFO''
     (update (\<lambda>t. t) [\<lparr>level = ''EMPTY'', message = ''a'', timestamp = ''t0''\<rparr>] ''INFO''
        (newLogPanel, Some initialPanel)) =
   (\<lparr>lastRenderedCount = 2, lastLogLevel = ''INFO''\<rparr>,
    Some [LogElement ''log-entry log-info'' ''t1'' ''[INFO]'' ''b''])"
  by (simp add: update_def fullRender_def appendLogs_def newLogPanel_def initialPanel_def
        filterLogsByLevel_def shouldShowLog_def levelHierarchy_def ownLevels_def objectPrototype_def
        nullish_def createLogElement_def toLowerCase_def matchesLogEmpty_def classList_def is_ws_def)

text \<open>
  Claim C2: an entry of one of the three severities is admitted under a threshold exactly
  when its rank is at most the rank of the threshold; the entries INFO "a", WARNING "b",
  ERROR "c" under the threshold WARNING render as "b", "c", and the change of the threshold
  to INFO is a full render that shows "a", "b", "c".
\<close>

theorem severity_threshold:
  "(shouldShowLog \<lparr>level = severity_name sv, message = m, timestamp = t\<rparr> (severity_name T)
      \<longleftrightarrow> severity_rank sv \<le> severity_rank T) \<and>
   update fmt
     [\<lparr>level = ''INFO'', message = ''a'', timestamp = ta\<rparr>,
      \<lparr>level = ''WARNING'', message = ''b'', timestamp = tb\<rparr>,
      \<lparr>level = ''ERROR'', message = ''c'', timestamp = tc\<rparr>] ''WARNING''
     (newLogPanel, Some initialPanel) =
   (\<lparr>lastRenderedCount = 3, lastLogLevel = ''WARNING''\<rparr>,
    Some [createLogElement fmt \<lparr>level = ''WARNING'', message = ''b'', timestamp = tb\<rparr>,
          createLogElement fmt \<lparr>level = ''ERROR'', message = ''c'', timestamp = tc\<rparr>]) \<and>
   update fmt
     [\<lparr>level = ''INFO'', message = ''a'', timestamp = ta\<rparr>,
      \<lparr>level = ''WARNING'', message = ''b'', timestamp = tb\<rparr>,
      \<lparr>level = ''ERROR'', message = ''c'', timestamp = tc\<rparr>] ''INFO''
     (\<lparr>lastRenderedCount = 3, lastLogLevel = ''WARNING''\<rparr>,
      Some [createLogElement fmt \<lparr>level = ''WARNING'', message = ''b'', timestamp = tb\<rparr>,
            createLogElement fmt \<lparr>level = ''ERROR'', message = ''c'', timestamp = tc\<rparr>]) =
   map_prod id Some
     (fullRender fmt
        [\<lparr>level = ''INFO'', message = ''a'', timestamp = ta\<rparr>,
         \<lparr>level = ''WARNING'', message = ''b'', timestamp = tb\<rparr>,
         \<lparr>level = ''ERROR'', message = ''c'', timestamp = tc\<rparr>] ''INFO''
        (\<lparr>lastRenderedCount = 3, lastLogLevel = ''INFO''\<rparr>,
         [createLogElement fmt \<lparr>level = ''WARNING'', message = ''b'', timestamp = tb\<rparr>,
          createLogElement fmt \<lparr>level = ''ERROR'', message = ''c'', timestamp = tc\<rparr>])) \<and>
   fullRender fmt
     [\<lparr>level = ''INFO'', message = ''a'', timestamp = ta\<rparr>,
      \<lparr>level = ''WARNING'', message = ''b'', timestamp = tb\<rparr>,
      \<lparr>level = ''ERROR'', message = ''c'', timestamp = tc\<rparr>] ''INFO''
     (\<lparr>lastRenderedCount = 3, lastLogLevel = ''INFO''\<rparr>,
      [createLogElement fmt \<lparr>level = ''WARNING'', message = ''b'', timestamp = tb\<rparr>,
       createLogElement fmt \<lparr>level = ''ERROR'', message = ''c'', timestamp = tc\<rparr>]) =
   (\<lparr>lastRenderedCount = 3, lastLogLevel = ''INFO''\<rparr>,
    [createLogElement fmt \<lparr>level = ''INFO'', message = ''a'', timestamp = ta\<rparr>,
     createLogElement fmt \<lparr>level = ''WARNING'', message = ''b'', timestamp = tb\<rparr>,
     createLogElement fmt \<lparr>level = ''ERROR'', message = ''c'', timestamp = tc\<rparr>]) \<and>
   map nodeMessage
     [createLogElement fmt \<lparr>level = ''WARNING'', message = ''b'', timestamp = tb\<rparr>,
      createLogElement fmt \<lparr>level = ''ERROR'', message = ''c'', timestamp = tc\<rparr>] = [''b'', ''c''] \<and>
   map nodeMessage
     [createLogElement fmt \<lparr>level = ''INFO'', message = ''a'', timestamp = ta\<rparr>,
      createLogElement fmt \<lparr>level = ''WARNING'', message = ''b'', timestamp = tb\<rparr>,
      createLogElement fmt \<lparr>level = ''ERROR'', message = ''c'', timestamp = tc\<rparr>] = [''a'', ''b'', ''c'']"
proof (intro conjI)
  show "shouldShowLog \<lparr>level = severity_name sv, message = m, timestamp = t\<rparr> (severity_name T)
      \<longleftrightarrow> severity_rank sv \<le> severity_rank T"
    by (rule severity_filter)
qed (simp_all add: update_closed fullRender_closed newLogPanel_def initialPanel_def
       filterLogsByLevel_def shouldShowLog_def levelHierarchy_def ownLevels_def nullish_def
       createLogElement_def)

theorem severity_threshold_witness:
  "shouldShowLog \<lparr>level = ''ERROR'', message = ''c'', timestamp = ''t''\<rparr> ''WARNING'' \<and>
   \<not> shouldShowLog \<lparr>level = ''INFO'', message = ''a'', timestamp = ''t''\<rparr> ''WARNING''"
  using severity_threshold [of ERROR "''c''" "''t''" WARNING]
        severity_threshold [of INFO "''a''" "''t''" WARNING]
  by simp

lemma full_render_placeholder:
  assumes "T \<noteq> lastLogLevel v \<or> length lgs < lastRenderedCount v"
      and "filterLogsByLevel lgs T = []"
  shows "snd (update fmt lgs T (v, Some c)) = Some [EmptyMsg]"
  using assms by (auto simp: update_closed)

text \<open>
  Claim C4 at a failing input: a fresh view given an empty log under WARNING shows the
  placeholder; the update that then adds one INFO entry, which WARNING does not admit, takes
  the append path, removes the placeholder and appends nothing, so the panel is left blank.
\<close>

theorem append_blank_viewport:
  "update fmt [] ''WARNING'' (newLogPanel, Some initialPanel) =
     (\<lparr>lastRenderedCount = 0, lastLogLevel = ''WARNING''\<rparr>, Some [EmptyMsg]) \<and>
   update fmt [\<lparr>level = ''INFO'', message = m, timestamp = t\<rparr>] ''WARNING''
     (\<lparr>lastRenderedCount = 0, lastLogLevel = ''WARNING''\<rparr>, Some [EmptyMsg]) =
     (\<lparr>lastRenderedCount = 1, lastLogLevel = ''WARNING''\<rparr>, Some [])"
  by (simp add: update_closed newLogPanel_def initialPanel_def matchesLogEmpty_EmptyMsg
        filterLogsByLevel_def shouldShowLog_def levelHierarchy_def ownLevels_def nullish_def)

theorem append_blank_viewport_witness:
  "snd (update (\<lambda>t. t) [\<lparr>level = ''INFO'', message = ''a'', timestamp = ''t0''\<rparr>] ''WARNING''
     (update (\<lambda>t. t) [] ''WARNING'' (newLogPanel, Some initialPanel))) = Some []"
  using append_blank_viewport [of "\<lambda>t. t" "''a''" "''t0''"] by simp

text \<open>
  Claim C5: for two different thresholds \<open>T1\<close> and \<open>T2\<close> and an unchanged log, updating
  with \<open>T1\<close>, then \<open>T2\<close>, then \<open>T1\<close> again leaves the view, whatever it showed before, in the
  state that a single update with \<open>T1\<close> gives a fresh view: the entries admitted by \<open>T1\<close>, in
  the order of the log.
\<close>

theorem switch_back:
  assumes "T1 \<noteq> T2"
  shows "update fmt lgs (severity_name T1)
           (update fmt lgs (severity_name T2)
              (update fmt lgs (severity_name T1) (v, Some c))) =
         update fmt lgs (severity_name T1) (newLogPanel, Some initialPanel) \<and>
         update fmt lgs (severity_name T1) (newLogPanel, Some initialPanel) =
           (\<lparr>lastRenderedCount = length lgs, lastLogLevel = severity_name T1\<rparr>,
            Some (if filterLogsByLevel lgs (severity_name T1) = [] then [EmptyMsg]
                  else map (createLogElement fmt) (filterLogsByLevel lgs (severity_name T1))))"
proof -
  have ne: "severity_name T1 \<noteq> severity_name T2"
    using assms by (cases T1; cases T2) simp_all
  have fresh: "severity_name T1 \<noteq> lastLogLevel newLogPanel"
    by (cases T1) (simp_all add: newLogPanel_def)
  have single: "update fmt lgs (severity_name T1) (newLogPanel, Some initialPanel) =
           (\<lparr>lastRenderedCount = length lgs, lastLogLevel = severity_name T1\<rparr>,
            Some (if filterLogsByLevel lgs (severity_name T1) = [] then [EmptyMsg]
                  else map (createLogElement fmt) (filterLogsByLevel lgs (severity_name T1))))"
    using fresh by (simp add: update_closed)
  show ?thesis
    using switch_back_general [OF ne] single by simp
qed

theorem switch_back_witness:
  "update (\<lambda>t. t) [\<lparr>level = ''INFO'', message = ''a'', timestamp = ''t0''\<rparr>] ''WARNING''
     (update (\<lambda>t. t) [\<lparr>level = ''INFO'', message = ''a'', timestamp = ''t0''\<rparr>] ''INFO''
        (update (\<lambda>t. t) [\<lparr>level = ''INFO'', message = ''a'', timestamp = ''t0''\<rparr>] ''WARNING''
           (newLogPanel, Some initialPanel))) =
   (\<lparr>lastRenderedCount = 1, lastLogLevel = ''WARNING''\<rparr>, Some [EmptyMsg])"
proof -
  have h: "WARNING \<noteq> INFO" by simp
  note sb = switch_back [OF h, of "\<lambda>t. t"
      "[\<lparr>level = ''INFO'', message = ''a'', timestamp = ''t0''\<rparr>]" newLogPanel initialPanel]
  have a: "update (\<lambda>t. t) [\<lparr>level = ''INFO'', message = ''a'', timestamp = ''t0''\<rparr>] ''WARNING''
     (update (\<lambda>t. t) [\<lparr>level = ''INFO'', message = ''a'', timestamp = ''t0''\<rparr>] ''INFO''
        (update (\<lambda>t. t) [\<lparr>level = ''INFO'', message = ''a'', timestamp = ''t0''\<rparr>] ''WARNING''
           (newLogPanel, Some initialPanel))) =
     update (\<lambda>t. t) [\<lparr>level = ''INFO'', message = ''a'', timestamp = ''t0''\<rparr>] ''WARNING''
       (newLogPanel, Some initialPanel)"
    using sb [THEN conjunct1] by (simp only: severity_name.simps)
  have b: "update (\<lambda>t. t) [\<lparr>level = ''INFO'', message = ''a'', timestamp = ''t0''\<rparr>] ''WARNING''
       (newLogPanel, Some initialPanel) =
     (\<lparr>lastRenderedCount = 1, lastLogLevel = ''WARNING''\<rparr>, Some [EmptyMsg])"
    using sb [THEN conjunct2]
    by (simp add: filterLogsByLevel_def shouldShowLog_def levelHierarchy_def ownLevels_def nullish_def)
  show ?thesis by (rule trans [OF a b])
qed

text \<open>
  Claim C10 at a failing input: an entry whose level is \<open>constructor\<close> is outside the three
  severities, yet it is not shown under the threshold INFO, because the lookup finds the
  inherited property and the default rank is not applied. An unlisted level such as
  \<open>DEBUG\<close> is shown under INFO, and the level \<open>WARN\<close> that the shell uses is hidden under
  WARNING.
\<close>

theorem inherited_key_hidden:
  "\<not> shouldShowLog \<lparr>level = ''constructor'', message = m, timestamp = t\<rparr> ''INFO'' \<and>
   shouldShowLog \<lparr>level = ''DEBUG'', message = m, timestamp = t\<rparr> ''INFO'' \<and>
   \<not> shouldShowLog \<lparr>level = ''WARN'', message = m, timestamp = t\<rparr> ''WARNING''"
  by (simp add: shouldShowLog_def levelHierarchy_def ownLevels_def objectPrototype_def nullish_def)

theorem inherited_key_hidden_witness:
  "shouldShowLog \<lparr>level = ''constructor'', message = ''x'', timestamp = ''t0''\<rparr> ''INFO'' = False"
  using inherited_key_hidden [of "''x''" "''t0''"] by simp

section \<open>Properties of the store\<close>

lemma truncate_eqD:
  "AppFields.truncate s = AppFields.truncate s' \<Longrightarrow>
     selectedPath s = selectedPath s' \<and> isProcessing s = isProcessing s' \<and> logs s = logs s' \<and>
     processingResult s = processingResult s' \<and> selectedLogLevel s = selectedLogLevel s' \<and>
     progressCurrent s = progressCurrent s' \<and> progressTotal s = progressTotal s' \<and>
     currentTaskCategory s = currentTaskCategory s' \<and> statusMessage s = statusMessage s'"
  by (simp add: AppFields.truncate_def)

lemma truncate_heap_update:
  "AppFields.truncate (s\<lparr>listeners := a\<rparr>) = AppFields.truncate s"
  "AppFields.truncate (s\<lparr>arrays := h\<rparr>) = AppFields.truncate s"
  "AppFields.truncate (s\<lparr>fresh := n\<rparr>) = AppFields.truncate s"
  "AppFields.truncate (s\<lparr>tick := k\<rparr>) = AppFields.truncate s"
  "AppFields.truncate (s\<lparr>notifications := ns\<rparr>) = AppFields.truncate s"
  "AppFields.truncate (s\<lparr>invoked := ls\<rparr>) = AppFields.truncate s"
  by (simp_all add: AppFields.truncate_def)

lemma truncate_field_update:
  "AppFields.truncate (s\<lparr>selectedPath := p\<rparr>) = (AppFields.truncate s)\<lparr>selectedPath := p\<rparr>"
  "AppFields.truncate (s\<lparr>isProcessing := b\<rparr>) = (AppFields.truncate s)\<lparr>isProcessing := b\<rparr>"
  "AppFields.truncate (s\<lparr>logs := lg\<rparr>) = (AppFields.truncate s)\<lparr>logs := lg\<rparr>"
  "AppFields.truncate (s\<lparr>processingResult := r\<rparr>) = (AppFields.truncate s)\<lparr>processingResult := r\<rparr>"
  "AppFields.truncate (s\<lparr>selectedLogLevel := lv\<rparr>) = (AppFields.truncate s)\<lparr>selectedLogLevel := lv\<rparr>"
  "AppFields.truncate (s\<lparr>progressCurrent := c\<rparr>) = (AppFields.truncate s)\<lparr>progressCurrent := c\<rparr>"
  "AppFields.truncate (s\<lparr>progressTotal := t\<rparr>) = (AppFields.truncate s)\<lparr>progressTotal := t\<rparr>"
  "AppFields.truncate (s\<lparr>currentTaskCategory := cat\<rparr>) = (AppFields.truncate s)\<lparr>currentTaskCategory := cat\<rparr>"
  "AppFields.truncate (s\<lparr>statusMessage := m\<rparr>) = (AppFields.truncate s)\<lparr>statusMessage := m\<rparr>"
  by (simp_all add: AppFields.truncate_def)

lemma perform_kept:
  "AppFields.truncate (perform x s) = AppFields.truncate s"
  "tick (perform x s) = tick s"
  "notifications (perform x s) = notifications s"
  "invoked (perform x s) = invoked s"
  by (cases x; simp add: subscribe_def unsubscribe_def truncate_heap_update)+

lemma fold_perform_kept:
  "AppFields.truncate (fold perform xs s) = AppFields.truncate s"
  "tick (fold perform xs s) = tick s"
  "notifications (fold perform xs s) = notifications s"
  "invoked (fold perform xs s) = invoked s"
  by (induction xs arbitrary: s; simp add: perform_kept)+

lemma invoke_kept:
  "AppFields.truncate (invoke e l s) = AppFields.truncate s"
  "tick (invoke e l s) = tick s"
  "notifications (invoke e l s) = notifications s"
  "invoked (invoke e l s) = invoked s @ [l]"
  by (simp_all add: invoke_def fold_perform_kept truncate_heap_update)

lemma forEach_kept:
  "AppFields.truncate (forEach e a k n s) = AppFields.truncate s"
  "tick (forEach e a k n s) = tick s"
  "notifications (forEach e a k n s) = notifications s"
  by (induction n arbitrary: k s; simp add: invoke_kept)+

lemma notify_truncate: "AppFields.truncate (notify e s) = AppFields.truncate s"
  by (simp add: notify_def forEach_kept truncate_heap_update)

lemma notify_tick: "tick (notify e s) = tick s"
  by (simp add: notify_def forEach_kept)

lemma notify_notifications:
  "notifications (notify e s) = notifications s @ [AppFields.truncate s]"
  by (simp add: notify_def forEach_kept)

lemma notify_fields:
  "selectedPath (notify e s) = selectedPath s"
  "isProcessing (notify e s) = isProcessing s"
  "logs (notify e s) = logs s"
  "processingResult (notify e s) = processingResult s"
  "selectedLogLevel (notify e s) = selectedLogLevel s"
  "progressCurrent (notify e s) = progressCurrent s"
  "progressTotal (notify e s) = progressTotal s"
  "currentTaskCategory (notify e s) = currentTaskCategory s"
  "statusMessage (notify e s) = statusMessage s"
  using truncate_eqD [OF notify_truncate [of e s]] by simp_all

text \<open>
  The array that a notification iterates over keeps its first elements whatever the
  callbacks do: \<open>subscribe\<close> only appends to it, and \<open>unsubscribe\<close> writes a new array at an
  unused address.
\<close>

lemma perform_heap:
  assumes "a < fresh s" "listeners s < fresh s" "prefix arr (arrays s a)"
  shows "a < fresh (perform x s) \<and> listeners (perform x s) < fresh (perform x s)
         \<and> prefix arr (arrays (perform x s) a)"
  using assms by (cases x) (auto simp: subscribe_def unsubscribe_def)

lemma fold_perform_heap:
  assumes "a < fresh s" "listeners s < fresh s" "prefix arr (arrays s a)"
  shows "a < fresh (fold perform xs s) \<and> listeners (fold perform xs s) < fresh (fold perform xs s)
         \<and> prefix arr (arrays (fold perform xs s) a)"
  using assms
proof (induction xs arbitrary: s)
  case Nil
  then show ?case by simp
next
  case (Cons x xs)
  from perform_heap [OF Cons.prems, of x] show ?case
    by (simp add: Cons.IH)
qed

lemma invoke_heap:
  assumes "a < fresh s" "listeners s < fresh s" "prefix arr (arrays s a)"
  shows "a < fresh (invoke e l s) \<and> listeners (invoke e l s) < fresh (invoke e l s)
         \<and> prefix arr (arrays (invoke e l s) a)"
  unfolding invoke_def using assms by (intro fold_perform_heap) simp_all

lemma forEach_invoked:
  assumes "a < fresh s" "listeners s < fresh s" "prefix arr (arrays s a)" "k + n = length arr"
  shows "invoked (forEach e a k n s) = invoked s @ drop k arr"
  using assms
proof (induction n arbitrary: k s)
  case 0
  then show ?case by simp
next
  case (Suc n)
  from Suc.prems have k: "k < length arr" by simp
  from Suc.prems(3) obtain zs where zs: "arrays s a = arr @ zs" by (auto simp: prefix_def)
  have nth: "arrays s a ! k = arr ! k" and len: "k < length (arrays s a)"
    using k by (simp_all add: zs nth_append)
  let ?s = "invoke e (arr ! k) s"
  have inv: "a < fresh ?s \<and> listeners ?s < fresh ?s \<and> prefix arr (arrays ?s a)"
    by (rule invoke_heap) (use Suc.prems in simp_all)
  have "invoked (forEach e a (Suc k) n ?s) = invoked ?s @ drop (Suc k) arr"
    by (rule Suc.IH) (use inv Suc.prems in simp_all)
  then show ?case
    using k by (simp add: nth len invoke_kept Cons_nth_drop_Suc)
qed

lemma forEach_heap:
  assumes "a < fresh s" "listeners s < fresh s" "prefix arr (arrays s a)"
  shows "a < fresh (forEach e a k n s) \<and> listeners (forEach e a k n s) < fresh (forEach e a k n s)
         \<and> prefix arr (arrays (forEach e a k n s) a)"
  using assms
proof (induction n arbitrary: k s)
  case 0
  then show ?case by simp
next
  case (Suc n)
  show ?case
  proof (cases "k < length (arrays s a)")
    case True
    have "a < fresh (invoke e (arrays s a ! k) s) \<and>
          listeners (invoke e (arrays s a ! k) s) < fresh (invoke e (arrays s a ! k) s) \<and>
          prefix arr (arrays (invoke e (arrays s a ! k) s) a)"
      by (rule invoke_heap) (use Suc.prems in simp_all)
    then show ?thesis using True by (simp add: Suc.IH)
  next
    case False
    then show ?thesis using Suc.prems by (simp add: Suc.IH)
  qed
qed

lemma notify_invoked:
  assumes "listeners s < fresh s"
  shows "invoked (notify e s) = invoked s @ arrays s (listeners s)"
  unfolding notify_def
  by (subst forEach_invoked [where arr = "arrays s (listeners s)"]) (use assms in simp_all)

lemma notify_wf:
  assumes "listeners s < fresh s"
  shows "listeners (notify e s) < fresh (notify e s)"
proof -
  let ?s = "s\<lparr>notifications := notifications s @ [AppFields.truncate s]\<rparr>"
  have "listeners s < fresh (forEach e (listeners s) 0 (length (arrays s (listeners s))) ?s) \<and>
        listeners (forEach e (listeners s) 0 (length (arrays s (listeners s))) ?s)
          < fresh (forEach e (listeners s) 0 (length (arrays s (listeners s))) ?s) \<and>
        prefix [] (arrays (forEach e (listeners s) 0 (length (arrays s (listeners s))) ?s) (listeners s))"
    by (rule forEach_heap) (use assms in simp_all)
  then show ?thesis by (simp add: notify_def)
qed

lemmas op_defs = setSelectedPath_def setProcessing_def setProcessingResult_def setSelectedLogLevel_def
  updateProgress_def setStatusMessage_def addLog_def clearLogs_def reset_def

lemma op_truncate:
  "AppFields.truncate (setSelectedPath e p s) = (AppFields.truncate s)\<lparr>selectedPath := p\<rparr>"
  "AppFields.truncate (setProcessing e b s) = (AppFields.truncate s)\<lparr>isProcessing := b\<rparr>"
  "AppFields.truncate (setProcessingResult e r s) = (AppFields.truncate s)\<lparr>processingResult := r\<rparr>"
  "AppFields.truncate (setSelectedLogLevel e lv s) = (AppFields.truncate s)\<lparr>selectedLogLevel := lv\<rparr>"
  "AppFields.truncate (updateProgress e cur tot cat s) =
     (AppFields.truncate s)\<lparr>progressCurrent := cur, progressTotal := tot, currentTaskCategory := cat\<rparr>"
  "AppFields.truncate (setStatusMessage e msg s) = (AppFields.truncate s)\<lparr>statusMessage := msg\<rparr>"
  "AppFields.truncate (addLog e lv msg s) =
     (AppFields.truncate s)\<lparr>logs := logs s @ [\<lparr>level = lv, message = msg, timestamp = clock e (tick s)\<rparr>]\<rparr>"
  "AppFields.truncate (clearLogs e s) = (AppFields.truncate s)\<lparr>logs := []\<rparr>"
  "AppFields.truncate (reset e s) = initialFields"
  by (simp_all add: op_defs notify_truncate truncate_field_update truncate_heap_update Let_def)
     (simp add: AppFields.truncate_def initialFields_def)

lemma op_notifications:
  "notifications (setSelectedPath e p s) = notifications s @ [(AppFields.truncate s)\<lparr>selectedPath := p\<rparr>]"
  "notifications (setProcessing e b s) = notifications s @ [(AppFields.truncate s)\<lparr>isProcessing := b\<rparr>]"
  "notifications (setProcessingResult e r s) =
     notifications s @ [(AppFields.truncate s)\<lparr>processingResult := r\<rparr>]"
  "notifications (setSelectedLogLevel e lv s) =
     notifications s @ [(AppFields.truncate s)\<lparr>selectedLogLevel := lv\<rparr>]"
  "notifications (updateProgress e cur tot cat s) =
     notifications s @
     [(AppFields.truncate s)\<lparr>progressCurrent := cur, progressTotal := tot, currentTaskCategory := cat\<rparr>]"
  "notifications (setStatusMessage e msg s) =
     notifications s @ [(AppFields.truncate s)\<lparr>statusMessage := msg\<rparr>]"
  "notifications (addLog e lv msg s) =
     notifications s @
     [(AppFields.truncate s)\<lparr>logs := logs s @ [\<lparr>level = lv, message = msg, timestamp = clock e (tick s)\<rparr>]\<rparr>]"
  "notifications (clearLogs e s) = notifications s @ [(AppFields.truncate s)\<lparr>logs := []\<rparr>]"
  "notifications (reset e s) = notifications s @ [initialFields]"
  by (simp_all add: op_defs notify_notifications truncate_field_update truncate_heap_update Let_def)
     (simp add: AppFields.truncate_def initialFields_def)

lemma truncate_same:
  "(AppFields.truncate s)\<lparr>selectedPath := selectedPath s\<rparr> = AppFields.truncate s"
  "(AppFields.truncate s)\<lparr>isProcessing := isProcessing s\<rparr> = AppFields.truncate s"
  "(AppFields.truncate s)\<lparr>processingResult := processingResult s\<rparr> = AppFields.truncate s"
  "(AppFields.truncate s)\<lparr>selectedLogLevel := selectedLogLevel s\<rparr> = AppFields.truncate s"
  "(AppFields.truncate s)\<lparr>progressCurrent := progressCurrent s, progressTotal := progressTotal s,
       currentTaskCategory := currentTaskCategory s\<rparr> = AppFields.truncate s"
  "(AppFields.truncate s)\<lparr>statusMessage := statusMessage s\<rparr> = AppFields.truncate s"
  by (simp_all add: AppFields.truncate_def)

lemma mutation_notifications:
  "notifications (apply_mutation e m s) = notifications s @ [AppFields.truncate (apply_mutation e m s)]"
  by (cases m) (simp_all add: op_notifications op_truncate)

lemma mutation_wf:
  "listeners s < fresh s \<Longrightarrow> listeners (apply_mutation e m s) < fresh (apply_mutation e m s)"
  by (cases m) (simp_all add: op_defs notify_wf Let_def)

lemma newShell_wf: "listeners newShell < fresh newShell"
  by (simp add: newShell_def subscribe_def newAppState_def)

lemma mutation_invoked:
  "listeners s < fresh s \<Longrightarrow> invoked (apply_mutation e m s) = invoked s @ arrays s (listeners s)"
  by (cases m) (simp_all add: op_defs notify_invoked Let_def)

text \<open>
  Claim C7: in a store whose listener array lies below the next unused address, a
  notification calls exactly the listeners that the array held when the notification began,
  in their order, whatever subscriptions the callbacks add or cancel meanwhile.
\<close>

theorem notify_delivery:
  assumes "listeners s < fresh s"
  shows "invoked (notify e s) = invoked s @ arrays s (listeners s)"
  using assms by (rule notify_invoked)

theorem notify_delivery_witness:
  "invoked (notify unsubscribingEnv twoListeners) = [1, 2] \<and>
   arrays (notify unsubscribingEnv twoListeners) (listeners (notify unsubscribingEnv twoListeners)) = []"
proof -
  have h: "listeners twoListeners < fresh twoListeners"
    by (simp add: twoListeners_def subscribe_def newAppState_def)
  have "invoked (notify unsubscribingEnv twoListeners) = [1, 2]"
    using notify_delivery [OF h, of unsubscribingEnv]
    by (simp add: twoListeners_def subscribe_def newAppState_def)
  moreover have "arrays (notify unsubscribingEnv twoListeners)
      (listeners (notify unsubscribingEnv twoListeners)) = []"
    by (simp add: notify_def twoListeners_def subscribe_def newAppState_def unsubscribingEnv_def
          invoke_def unsubscribe_def numeral_2_eq_2)
  ultimately show ?thesis by simp
qed

text \<open>
  Claim C8: each of the nine mutation operations returns a store (the model has no failure
  value because the code has no failing branch) and issues one notification, which shows the
  fields as the operation left them; this holds also when the value passed is the current
  one; \<open>reset\<close> puts every field back to its initial value and issues one notification; and
  a notification calls every registered listener once.
\<close>

theorem mutations_notify:
  "notifications (apply_mutation e m s) =
     notifications s @ [AppFields.truncate (apply_mutation e m s)] \<and>
   notifications (setSelectedPath e (selectedPath s) s) = notifications s @ [AppFields.truncate s] \<and>
   notifications (setProcessing e (isProcessing s) s) = notifications s @ [AppFields.truncate s] \<and>
   notifications (setProcessingResult e (processingResult s) s) =
     notifications s @ [AppFields.truncate s] \<and>
   notifications (setSelectedLogLevel e (selectedLogLevel s) s) =
     notifications s @ [AppFields.truncate s] \<and>
   notifications (updateProgress e (progressCurrent s) (progressTotal s) (currentTaskCategory s) s) =
     notifications s @ [AppFields.truncate s] \<and>
   notifications (setStatusMessage e (statusMessage s) s) = notifications s @ [AppFields.truncate s] \<and>
   AppFields.truncate (reset e s) = initialFields \<and>
   notifications (reset e s) = notifications s @ [initialFields] \<and>
   (listeners s < fresh s \<longrightarrow>
      invoked (apply_mutation e m s) = invoked s @ arrays s (listeners s))"
proof (intro conjI impI)
  show "notifications (apply_mutation e m s) =
     notifications s @ [AppFields.truncate (apply_mutation e m s)]"
    by (rule mutation_notifications)
  show "AppFields.truncate (reset e s) = initialFields"
    by (rule op_truncate)
  show "notifications (reset e s) = notifications s @ [initialFields]"
    by (rule op_notifications)
  show "invoked (apply_mutation e m s) = invoked s @ arrays s (listeners s)"
    if "listeners s < fresh s" using that by (rule mutation_invoked)
qed (simp_all add: op_notifications truncate_same)

theorem mutations_notify_witness:
  "notifications (setProcessing failingEnv False newShell) = [initialFields] \<and>
   invoked (setProcessing failingEnv False newShell) = [shellListener]"
proof -
  have h: "listeners newShell < fresh newShell"
    by (simp add: newShell_def subscribe_def newAppState_def)
  show ?thesis
    using mutations_notify [of failingEnv "SetProcessing False" newShell] h
    by (simp add: op_truncate)
       (simp add: newShell_def subscribe_def newAppState_def AppFields.truncate_def initialFields_def)
qed

section \<open>Properties of the shell\<close>

lemma truncate_sel:
  "selectedPath (AppFields.truncate s) = selectedPath s"
  "isProcessing (AppFields.truncate s) = isProcessing s"
  "logs (AppFields.truncate s) = logs s"
  "processingResult (AppFields.truncate s) = processingResult s"
  "selectedLogLevel (AppFields.truncate s) = selectedLogLevel s"
  "progressCurrent (AppFields.truncate s) = progressCurrent s"
  "progressTotal (AppFields.truncate s) = progressTotal s"
  "currentTaskCategory (AppFields.truncate s) = currentTaskCategory s"
  "statusMessage (AppFields.truncate s) = statusMessage s"
  by (simp_all add: AppFields.truncate_def)

lemma start_prologue_path:
  "selectedPath (addLog e lv msg (updateProgress e cur tot cat
      (setProcessingResult e r (setProcessing e b s)))) = selectedPath s"
  by (subst truncate_sel(1) [symmetric]) (simp add: op_truncate truncate_sel)







text \<open>
  Claim C6: a job started from an idle state with a selected path ends with \<open>isProcessing\<close>
  false, whether the backend resolves or rejects and whatever events reach the store while
  the handler waits; when the backend rejects, the status message is the error and the last
  log entry is an entry of level ERROR that reports the failure.
\<close>

theorem job_always_finishes:
  assumes "truthy (selectedPath s)" and "\<not> isProcessing s"
  shows "\<not> isProcessing (startProcessing e during s) \<and>
         (\<forall>err. start_processing e (selectedPath s) = Inl err \<longrightarrow>
            statusMessage (startProcessing e during s) = ''Error: '' @ err \<and>
            logs (startProcessing e during s) \<noteq> [] \<and>
            level (last (logs (startProcessing e during s))) = ''ERROR'' \<and>
            message (last (logs (startProcessing e during s))) = ''Processing failed: '' @ err)"
proof (intro conjI allI impI)
  have "isProcessing (AppFields.truncate (startProcessing e during s)) = False"
    using assms by (simp add: startProcessing_def Let_def op_truncate)
  then show "\<not> isProcessing (startProcessing e during s)"
    by (simp add: truncate_sel)
next
  fix err
  assume rej: "start_processing e (selectedPath s) = Inl err"
  let ?mid = "fold (apply_mutation e) during
      (addLog e ''INFO'' ''Starting processing...''
        (updateProgress e 0 0 '''' (setProcessingResult e None (setProcessing e True s))))"
  have t: "AppFields.truncate (startProcessing e during s) =
        (AppFields.truncate ?mid)\<lparr>
          logs := logs ?mid @ [\<lparr>level = ''ERROR'', message = ''Processing failed: '' @ err,
                               timestamp = clock e (tick ?mid)\<rparr>],
          statusMessage := ''Error: '' @ err, isProcessing := False\<rparr>"
    using assms rej
    by (simp add: startProcessing_def Let_def op_truncate start_prologue_path)
  have "statusMessage (AppFields.truncate (startProcessing e during s)) = ''Error: '' @ err"
    by (simp add: t)
  then show "statusMessage (startProcessing e during s) = ''Error: '' @ err"
    by (simp add: truncate_sel)
  have l: "logs (AppFields.truncate (startProcessing e during s)) =
        logs ?mid @ [\<lparr>level = ''ERROR'', message = ''Processing failed: '' @ err,
                               timestamp = clock e (tick ?mid)\<rparr>]"
    by (simp add: t)
  then have l': "logs (startProcessing e during s) =
        logs ?mid @ [\<lparr>level = ''ERROR'', message = ''Processing failed: '' @ err,
                               timestamp = clock e (tick ?mid)\<rparr>]"
    by (simp add: truncate_sel)
  show "logs (startProcessing e during s) \<noteq> []" by (simp add: l')
  show "level (last (logs (startProcessing e during s))) = ''ERROR''" by (simp add: l')
  show "message (last (logs (startProcessing e during s))) = ''Processing failed: '' @ err"
    by (simp add: l')
qed

theorem job_always_finishes_witness:
  "\<not> isProcessing (startProcessing failingEnv [AddLog ''INFO'' ''working''] selectedShell) \<and>
   statusMessage (startProcessing failingEnv [AddLog ''INFO'' ''working''] selectedShell)
     = ''Error: boom''"
proof -
  have h1: "truthy (selectedPath selectedShell)"
    by (simp add: selectedShell_def truthy_def)
  have h2: "\<not> isProcessing selectedShell"
    by (simp add: selectedShell_def newShell_def subscribe_def newAppState_def)
  have r: "start_processing failingEnv (selectedPath selectedShell) = Inl ''boom''"
    by (simp add: failingEnv_def)
  show ?thesis
    using job_always_finishes [OF h1 h2, of failingEnv "[AddLog ''INFO'' ''working'']"] r
    by simp
qed

lemma firstItemPath_None:
  assumes "\<forall>item\<in>set its. kind item = ''file'' \<longrightarrow>
             (\<forall>f. getAsFile item = Some f \<longrightarrow> \<not> truthy (path f))"
  shows "firstItemPath its = None"
  using assms by (induction its) (auto split: option.split)

text \<open>
  Claim C9: a drop whose file list is empty and none of whose file items has a file with a
  truthy path appends one entry of level ERROR to the log and changes no other field of the
  store.
\<close>

theorem drop_without_path:
  assumes "files dt = []"
      and "\<forall>item\<in>set (items dt). kind item = ''file'' \<longrightarrow>
             (\<forall>f. getAsFile item = Some f \<longrightarrow> \<not> truthy (path f))"
  shows "AppFields.truncate (dropHandler e (Some dt) s) =
           (AppFields.truncate s)\<lparr>logs := logs s @
              [\<lparr>level = ''ERROR'',
                message = ''No files found in drop event or could not extract path'',
                timestamp = clock e (tick s)\<rparr>]\<rparr>"
  using assms(1) firstItemPath_None [OF assms(2)]
  by (simp add: dropHandler_def itemsFallback_def op_truncate)

theorem drop_without_path_witness:
  "AppFields.truncate (dropHandler failingEnv (Some pathlessDrop) newShell) =
     initialFields\<lparr>logs :=
       [\<lparr>level = ''ERROR'',
         message = ''No files found in drop event or could not extract path'',
         timestamp = ''t''\<rparr>]\<rparr>"
proof -
  have h1: "files pathlessDrop = []" by (simp add: pathlessDrop_def)
  have h2: "\<forall>item\<in>set (items pathlessDrop). kind item = ''file'' \<longrightarrow>
             (\<forall>f. getAsFile item = Some f \<longrightarrow> \<not> truthy (path f))"
    by (simp add: pathlessDrop_def truthy_def)
  show ?thesis
    using drop_without_path [OF h1 h2, of failingEnv newShell]
    by (simp add: failingEnv_def newShell_def subscribe_def newAppState_def
          AppFields.truncate_def initialFields_def)
qed

end
